theory Spec2Isabelle
  imports Main
begin

section \<open>The React binding of the Verba translation client\<close>

text \<open>
  The repository consists of a context slot (\<open>VerbaContext\<close>), a provider component
  (\<open>VerbaProvider\<close>) that owns one instance of the external client class \<open>Verba\<close>, and an
  accessor hook (\<open>useVerba\<close>). The provider is a state machine: its hooks (\<open>useState\<close>,
  \<open>useRef\<close>, \<open>useEffect\<close>) hold the state, and React, the consumers and the client's
  readiness promises drive it. The model makes that state a record and every callback of the
  source a function on it.
\<close>

subsection \<open>Configuration and the external client\<close>

text \<open>
  \<open>VerbaProviderProps\<close> without \<open>children\<close>: exactly the five values of the effect's
  dependency array. \<open>localeDetector\<close> is a function which the provider never calls; it only
  hands it to the client and compares it by reference, so the model keeps its identity (a
  number) and HOL equality on the record is the comparison of the dependency array.
\<close>

record VerbaProviderProps =
  projectId :: string
  publicKey :: string
  locale_prop :: "string option"
  baseUrl :: "string option"
  localeDetector :: "nat option"

text \<open>
  The second argument of \<open>t\<close>, when it is given: a string (the default value) or an object
  (interpolation parameters, of a type \<open>'p\<close> the provider never inspects).
\<close>

datatype 'p t_arg = DefaultValue string | Params 'p

text \<open>
  The class \<open>Verba\<close> of the package \<open>@verbadev/js\<close> is not part of this repository. It is a
  parameter of the model: its constructor and methods as functions on the client object's
  internal state \<open>'c\<close>. \<open>setLocale\<close> mutates the object, so it returns the new state.
\<close>

record ('c, 'p) Verba =
  verba_new :: "VerbaProviderProps \<Rightarrow> 'c"
  verba_getLocale :: "'c \<Rightarrow> string"
  verba_setLocale :: "'c \<Rightarrow> string \<Rightarrow> 'c"
  verba_getLocales :: "'c \<Rightarrow> string list"
  verba_getDefaultLocale :: "'c \<Rightarrow> string option"
  verba_t :: "'c \<Rightarrow> string \<Rightarrow> 'p t_arg option \<Rightarrow> 'p option \<Rightarrow> string"

subsection \<open>The provider's state\<close>

text \<open>The promise returned by \<open>verba.ready()\<close>, with the continuation of \<open>then\<close> attached.\<close>

datatype promise = Pending | Fulfilled | Rejected

text \<open>
  \<open>isReady\<close> and \<open>currentLocale\<close> are the two \<open>useState\<close> cells and \<open>verbaRef\<close> is the
  \<open>useRef\<close> cell. Client objects are compared by reference (\<open>verbaRef.current === verba\<close>)
  and mutated in place, so they live in a store: \<open>heap\<close> maps an object's identity to its
  state and \<open>nextId\<close> is the identity the next \<open>new Verba\<close> gets. \<open>ready\<close> holds, for the
  instance captured by each continuation, the state of its readiness promise.
  \<open>effectHook\<close> is what React keeps for the effect while the component is mounted: the
  dependencies of its last run and the instance captured by the cleanup closure it
  returned.
\<close>

record 'c provider =
  isReady :: bool
  currentLocale :: string
  verbaRef :: "nat option"
  heap :: "nat \<rightharpoonup> 'c"
  nextId :: nat
  ready :: "nat \<rightharpoonup> promise"
  effectHook :: "(VerbaProviderProps \<times> nat) option"

text \<open>The first render: \<open>useState(false)\<close>, \<open>useState(locale ?? 'en')\<close>, \<open>useRef(null)\<close>.\<close>

definition init :: "VerbaProviderProps \<Rightarrow> 'c provider" where
  "init props =
     \<lparr>isReady = False,
      currentLocale = (case locale_prop props of Some l \<Rightarrow> l | None \<Rightarrow> ''en''),
      verbaRef = None, heap = Map.empty, nextId = 0, ready = Map.empty,
      effectHook = None\<rparr>"

subsection \<open>The effect, its continuation and its cleanup\<close>

text \<open>
  The continuation passed to \<open>verba.ready().then\<close>; \<open>verba\<close> is the instance the closure
  captured.
\<close>

definition ready_callback :: "('c, 'p) Verba \<Rightarrow> nat \<Rightarrow> 'c provider \<Rightarrow> 'c provider" where
  "ready_callback V verba s =
     (if verbaRef s = Some verba
      then s\<lparr>currentLocale := verba_getLocale V (the (heap s verba)), isReady := True\<rparr>
      else s)"

text \<open>The function the effect returns.\<close>

definition cleanup :: "nat \<Rightarrow> 'c provider \<Rightarrow> 'c provider" where
  "cleanup verba s = (if verbaRef s = Some verba then s\<lparr>verbaRef := None\<rparr> else s)"

text \<open>
  The body of the effect, statement by statement: \<open>setIsReady(false)\<close>, \<open>new Verba\<close>,
  the store into \<open>verbaRef.current\<close>, \<open>verba.ready().then\<close> (which registers the
  continuation and returns at once), and the return of the cleanup closure.
\<close>

definition effect :: "('c, 'p) Verba \<Rightarrow> VerbaProviderProps \<Rightarrow> 'c provider \<Rightarrow> 'c provider" where
  "effect V props s =
     (let s1 = s\<lparr>isReady := False\<rparr>;
          verba = nextId s1;
          s2 = s1\<lparr>heap := (heap s1)(verba \<mapsto> verba_new V props), nextId := Suc verba\<rparr>;
          s3 = s2\<lparr>verbaRef := Some verba\<rparr>;
          s4 = s3\<lparr>ready := (ready s3)(verba \<mapsto> Pending)\<rparr>
      in s4\<lparr>effectHook := Some (props, verba)\<rparr>)"

text \<open>Mounting: the first render, then the first run of the effect.\<close>

definition mount :: "('c, 'p) Verba \<Rightarrow> VerbaProviderProps \<Rightarrow> 'c provider" where
  "mount V props = effect V props (init props)"

subsection \<open>What the provider publishes\<close>

definition setLocale :: "('c, 'p) Verba \<Rightarrow> string \<Rightarrow> 'c provider \<Rightarrow> 'c provider" where
  "setLocale V newLocale s =
     (case verbaRef s of
        None \<Rightarrow> s
      | Some verba \<Rightarrow>
          s\<lparr>heap := (heap s)(verba \<mapsto> verba_setLocale V (the (heap s verba)) newLocale),
            currentLocale := newLocale\<rparr>)"

text \<open>
  \<open>t\<close> reads \<open>verbaRef.current\<close> when it is called, so it is a function of the provider's
  state at the call.
\<close>

definition t :: "('c, 'p) Verba \<Rightarrow> 'c provider \<Rightarrow> string \<Rightarrow> 'p t_arg option \<Rightarrow> 'p option \<Rightarrow> string" where
  "t V s key defaultValueOrParams params =
     (case verbaRef s of
        None \<Rightarrow> (case defaultValueOrParams of Some (DefaultValue d) \<Rightarrow> d | _ \<Rightarrow> key)
      | Some verba \<Rightarrow> verba_t V (the (heap s verba)) key defaultValueOrParams params)"

text \<open>
  The data fields of \<open>VerbaContextValue\<close>. Its two function fields are \<open>t\<close> and
  \<open>setLocale\<close> above: both act on the provider's state at the time of the call, not on the
  snapshot.
\<close>

record VerbaContextValue =
  v_locale :: string
  v_locales :: "string list"
  v_defaultLocale :: "string option"
  v_isReady :: bool

text \<open>
  The factory passed to the \<open>useMemo\<close> that builds the context value: what it returns
  when it runs in state \<open>s\<close>. It reads \<open>verbaRef.current\<close> at that moment. When it runs
  is decided by the memo (see \<open>render\<close> below), and the value the context publishes is
  the memoised one (\<open>published\<close>), not the factory applied to the current state.
\<close>

definition context_value :: "('c, 'p) Verba \<Rightarrow> 'c provider \<Rightarrow> VerbaContextValue" where
  "context_value V s =
     \<lparr>v_locale = currentLocale s,
      v_locales = (case verbaRef s of None \<Rightarrow> [] | Some verba \<Rightarrow> verba_getLocales V (the (heap s verba))),
      v_defaultLocale =
        (case verbaRef s of None \<Rightarrow> None | Some verba \<Rightarrow> verba_getDefaultLocale V (the (heap s verba))),
      v_isReady = isReady s\<rparr>"

subsection \<open>The accessor hook\<close>

datatype error = Error string

text \<open>
  React's \<open>useContext\<close>: the value of the nearest enclosing provider of the context, or the
  context's default when there is none. \<open>providers\<close> lists the values of the enclosing
  providers, the nearest first.
\<close>

definition useContext :: "'a \<Rightarrow> 'a list \<Rightarrow> 'a" where
  "useContext default_value providers = (case providers of [] \<Rightarrow> default_value | v # _ \<Rightarrow> v)"

text \<open>\<open>createContext<VerbaContextValue | null>(null)\<close>: the default of the slot.\<close>

definition VerbaContext :: "VerbaContextValue option" where
  "VerbaContext = None"

definition useVerba :: "VerbaContextValue option list \<Rightarrow> error + VerbaContextValue" where
  "useVerba providers =
     (case useContext VerbaContext providers of
        None \<Rightarrow> Inl (Error ''useVerba must be used within a <VerbaProvider>'')
      | Some context \<Rightarrow> Inr context)"

subsection \<open>Events\<close>

text \<open>
  What can happen to a mounted provider. \<open>Commit props\<close>: React commits a render with these
  props, and re-runs the effect (the previous cleanup first) when the dependency array
  differs from the one of the last run. \<open>Resolve i\<close> and \<open>Reject i\<close>: the readiness promise of
  instance \<open>i\<close> settles; a promise settles once, and \<open>then\<close> was given a handler for
  fulfilment only. \<open>SetLocale x\<close>: a consumer calls \<open>setLocale(x)\<close>. \<open>ClientActivity i c\<close>:
  the client object \<open>i\<close> changes its own internal state to \<open>c\<close> (a response from the
  network arrives). \<open>Unmount\<close>: React runs the cleanup and drops the component. An event
  that cannot happen in a state (a promise that is not pending settles, a component that is
  not mounted is committed) leaves the state as it is.
\<close>

datatype 'c event =
    Commit VerbaProviderProps
  | Resolve nat
  | Reject nat
  | SetLocale string
  | ClientActivity nat 'c
  | Unmount

fun step :: "('c, 'p) Verba \<Rightarrow> 'c event \<Rightarrow> 'c provider \<Rightarrow> 'c provider" where
  "step V (Commit props) s =
     (case effectHook s of
        None \<Rightarrow> s
      | Some (deps, verba) \<Rightarrow> if deps = props then s else effect V props (cleanup verba s))"
| "step V (Resolve i) s =
     (if ready s i = Some Pending
      then ready_callback V i (s\<lparr>ready := (ready s)(i \<mapsto> Fulfilled)\<rparr>)
      else s)"
| "step V (Reject i) s =
     (if ready s i = Some Pending then s\<lparr>ready := (ready s)(i \<mapsto> Rejected)\<rparr> else s)"
| "step V (SetLocale newLocale) s = setLocale V newLocale s"
| "step V (ClientActivity i c) s =
     (if heap s i = None then s else s\<lparr>heap := (heap s)(i \<mapsto> c)\<rparr>)"
| "step V Unmount s =
     (case effectHook s of
        None \<Rightarrow> s
      | Some (deps, verba) \<Rightarrow> (cleanup verba s)\<lparr>effectHook := None\<rparr>)"

fun run :: "('c, 'p) Verba \<Rightarrow> 'c event list \<Rightarrow> 'c provider \<Rightarrow> 'c provider" where
  "run V [] s = s"
| "run V (e # es) s = run V es (step V e s)"

text \<open>
  The number of steps of a run at which \<open>isReady\<close> goes from false to true while instance
  \<open>i\<close> is the one in \<open>verbaRef\<close>.
\<close>

fun rises :: "('c, 'p) Verba \<Rightarrow> nat \<Rightarrow> 'c event list \<Rightarrow> 'c provider \<Rightarrow> nat" where
  "rises V i [] s = 0"
| "rises V i (e # es) s =
     (if \<not> isReady s \<and> isReady (step V e s) \<and> verbaRef (step V e s) = Some i then 1 else 0)
       + rises V i es (step V e s)"

text \<open>
  The events that come from the client alone and are not a fulfilment: a rejection of a
  readiness promise, or a change of a client's internal state.
\<close>

fun no_resolution :: "'c event \<Rightarrow> bool" where
  "no_resolution (Reject i) = True"
| "no_resolution (ClientActivity i c) = True"
| "no_resolution _ = False"

subsection \<open>Rendering and the memoised context value\<close>

text \<open>
  The context value is built by a \<open>useMemo\<close> whose dependency array is
  \<open>[t, currentLocale, setLocale, isReady]\<close>. \<open>setLocale\<close> is a \<open>useCallback\<close> with no
  dependencies and \<open>t\<close> one with the dependencies \<open>[currentLocale, isReady]\<close>, so the
  array changes exactly when \<open>currentLocale\<close> or \<open>isReady\<close> does: that pair is the key of
  the memo. \<open>verbaRef.current\<close> is not part of it. The component is the provider's hook
  state together with the memo cell: its key and the value last built, which is the value
  the context publishes.
\<close>

record 'c component =
  hooks :: "'c provider"
  value_memo :: "(string \<times> bool) \<times> VerbaContextValue"

definition published :: "'c component \<Rightarrow> VerbaContextValue" where
  "published c = snd (value_memo c)"

text \<open>The first render runs the factory on the initial state.\<close>

definition first_render :: "('c, 'p) Verba \<Rightarrow> VerbaProviderProps \<Rightarrow> 'c component" where
  "first_render V props =
     (let s = init props
      in \<lparr>hooks = s, value_memo = ((currentLocale s, isReady s), context_value V s)\<rparr>)"

text \<open>
  A later render: \<open>useMemo\<close> returns the memoised value when the key is unchanged and
  runs the factory on the current state otherwise.
\<close>

definition render :: "('c, 'p) Verba \<Rightarrow> 'c component \<Rightarrow> 'c component" where
  "render V c =
     (let deps = (currentLocale (hooks c), isReady (hooks c))
      in if fst (value_memo c) = deps then c
         else c\<lparr>value_memo := (deps, context_value V (hooks c))\<rparr>)"

text \<open>
  Mounting the component: the first render, the first run of the effect, and a render
  after it. The effect's \<open>setIsReady(false)\<close> does not change the state there, so the
  key is unchanged and the value of the first render stays published, although
  \<open>verbaRef\<close> now holds an instance.
\<close>

definition mount_component :: "('c, 'p) Verba \<Rightarrow> VerbaProviderProps \<Rightarrow> 'c component" where
  "mount_component V props = render V ((first_render V props)\<lparr>hooks := mount V props\<rparr>)"

text \<open>
  An event of the component: the event on the hook state, then a render. React renders
  again only after a change of state, and a render with an unchanged key returns the
  memoised value, so rendering after every event publishes the same values. A component
  that has been unmounted is not rendered any more.
\<close>

definition react :: "('c, 'p) Verba \<Rightarrow> 'c event \<Rightarrow> 'c component \<Rightarrow> 'c component" where
  "react V e c =
     (let c' = c\<lparr>hooks := step V e (hooks c)\<rparr>
      in if effectHook (hooks c') = None then c' else render V c')"

fun run_component :: "('c, 'p) Verba \<Rightarrow> 'c event list \<Rightarrow> 'c component \<Rightarrow> 'c component" where
  "run_component V [] c = c"
| "run_component V (e # es) c = run_component V es (react V e c)"

subsection \<open>A sample client\<close>

text \<open>
  A small client to run the model on: it starts with one bundled translation, answers \<open>t\<close>
  from its table and falls back to the default value or the key.
\<close>

record sample_client =
  sc_locale :: string
  sc_table :: "(string \<times> string) list"

definition sample_Verba :: "(sample_client, unit) Verba" where
  "sample_Verba =
     \<lparr>verba_new = (\<lambda>props.
        \<lparr>sc_locale = (case locale_prop props of Some l \<Rightarrow> l | None \<Rightarrow> ''de''),
         sc_table = [(''greeting'', ''Hallo'')]\<rparr>),
      verba_getLocale = sc_locale,
      verba_setLocale = (\<lambda>c l. c\<lparr>sc_locale := l\<rparr>),
      verba_getLocales = (\<lambda>c. [''de'', ''fr'']),
      verba_getDefaultLocale = (\<lambda>c. Some ''de''),
      verba_t = (\<lambda>c key d p.
        case map_of (sc_table c) key of
          Some v \<Rightarrow> v
        | None \<Rightarrow> (case d of Some (DefaultValue v) \<Rightarrow> v | _ \<Rightarrow> key))\<rparr>"

definition props_A :: VerbaProviderProps where
  "props_A = \<lparr>projectId = ''p1'', publicKey = ''pk_1'', locale_prop = None,
              baseUrl = None, localeDetector = None\<rparr>"

definition props_B :: VerbaProviderProps where
  "props_B = \<lparr>projectId = ''p1'', publicKey = ''pk_1'', locale_prop = Some ''fr'',
              baseUrl = None, localeDetector = None\<rparr>"

text \<open>Two states the sample client can reach on its own, after a response from the network.\<close>

definition client_fr :: sample_client where
  "client_fr = \<lparr>sc_locale = ''fr-CA'', sc_table = []\<rparr>"

definition client_de :: sample_client where
  "client_de = \<lparr>sc_locale = ''de-AT'', sc_table = []\<rparr>"

subsection \<open>Invariants of the reachable states\<close>

text \<open>
  Used in the proofs only. Identities from \<open>nextId\<close> on are not allocated; while the
  component is mounted the cleanup closure holds the instance that is in \<open>verbaRef\<close>, and
  an unmounted component holds none; the instance in \<open>verbaRef\<close> is allocated, and when
  \<open>isReady\<close> is set its promise has been fulfilled.
\<close>

definition wf :: "'c provider \<Rightarrow> bool" where
  "wf s \<longleftrightarrow>
     (\<forall>j. nextId s \<le> j \<longrightarrow> ready s j = None \<and> heap s j = None) \<and>
     (\<forall>d i. effectHook s = Some (d, i) \<longrightarrow> verbaRef s = Some i) \<and>
     (effectHook s = None \<longrightarrow> verbaRef s = None) \<and>
     (\<forall>i. verbaRef s = Some i \<longrightarrow> heap s i \<noteq> None \<and> (isReady s \<longrightarrow> ready s i = Some Fulfilled))"

text \<open>
  How many more times \<open>isReady\<close> can rise for instance \<open>i\<close>: once while its promise is
  pending or the instance is still to be created, never afterwards.
\<close>

definition budget :: "'c provider \<Rightarrow> nat \<Rightarrow> nat" where
  "budget s i = (if ready s i = Some Pending \<or> nextId s \<le> i then 1 else 0)"

section \<open>Properties\<close>

text \<open>The definitions unfolded to run the model on the sample client.\<close>

lemmas eval_defs = mount_def init_def effect_def Let_def ready_callback_def cleanup_def
  setLocale_def props_A_def props_B_def sample_Verba_def client_fr_def client_de_def

subsection \<open>Reachable states are well formed\<close>

lemma wf_init: "wf (init props)"
  by (simp add: wf_def init_def)

lemma wf_effect:
  assumes "\<forall>j. nextId s \<le> j \<longrightarrow> ready s j = None \<and> heap s j = None"
  shows "wf (effect V props s)"
  using assms by (simp add: wf_def effect_def Let_def)

lemma wf_mount: "wf (mount V props)"
  unfolding mount_def by (rule wf_effect) (simp add: init_def)

lemma cleanup_fields:
  "nextId (cleanup i s) = nextId s" "ready (cleanup i s) = ready s" "heap (cleanup i s) = heap s"
  "isReady (cleanup i s) = isReady s" "currentLocale (cleanup i s) = currentLocale s"
  "effectHook (cleanup i s) = effectHook s"
  by (simp_all add: cleanup_def)

lemma wf_step: "wf s \<Longrightarrow> wf (step V e s)"
proof (cases e)
  case (Commit props)
  assume w: "wf s"
  show ?thesis
  proof (cases "effectHook s")
    case None
    with Commit w show ?thesis by simp
  next
    case (Some a)
    obtain deps verba where a: "a = (deps, verba)" by (cases a)
    have "wf (effect V props (cleanup verba s))"
      by (rule wf_effect) (use w in \<open>simp add: cleanup_fields wf_def\<close>)
    with Commit Some a w show ?thesis by simp
  qed
next
  case (Resolve i)
  assume "wf s"
  then show ?thesis unfolding Resolve
    by (auto simp: wf_def ready_callback_def)
next
  case (Reject i)
  assume "wf s"
  then show ?thesis unfolding Reject by (auto simp: wf_def)
next
  case (SetLocale x)
  assume "wf s"
  then show ?thesis unfolding SetLocale by (auto simp: wf_def setLocale_def split: option.splits)
next
  case (ClientActivity i c)
  assume "wf s"
  then show ?thesis unfolding ClientActivity by (auto simp: wf_def)
next
  case Unmount
  assume "wf s"
  then show ?thesis unfolding Unmount by (auto simp: wf_def cleanup_def split: option.splits)
qed

lemma wf_run: "wf s \<Longrightarrow> wf (run V es s)"
  by (induction es arbitrary: s) (simp_all add: wf_step)

lemma wf_reachable: "wf (run V es (mount V props))"
  by (simp add: wf_run wf_mount)

subsection \<open>Readiness\<close>

lemma stale_resolve:
  "verbaRef s \<noteq> Some i \<Longrightarrow>
     isReady (step V (Resolve i) s) = isReady s \<and>
     currentLocale (step V (Resolve i) s) = currentLocale s \<and>
     verbaRef (step V (Resolve i) s) = verbaRef s \<and>
     heap (step V (Resolve i) s) = heap s"
  by (simp add: ready_callback_def)

lemma rise_cause:
  "\<not> isReady s \<Longrightarrow> isReady (step V e s) \<Longrightarrow>
     \<exists>j. e = Resolve j \<and> verbaRef s = Some j \<and> ready s j = Some Pending"
  by (cases e)
     (auto simp: ready_callback_def effect_def Let_def cleanup_def setLocale_def
           split: option.splits if_splits)

lemma step_budget:
  assumes "wf s"
  shows "(if \<not> isReady s \<and> isReady (step V e s) \<and> verbaRef (step V e s) = Some i then 1 else 0)
           + budget (step V e s) i \<le> budget s i"
proof (cases e)
  case (Commit props)
  then show ?thesis
    by (auto simp: budget_def effect_def Let_def cleanup_def split: option.splits)
next
  case (Resolve j)
  from assms have "nextId s \<le> j \<Longrightarrow> ready s j = None" for j
    by (simp add: wf_def)
  then show ?thesis unfolding Resolve
    by (auto simp: budget_def ready_callback_def)
next
  case (Reject j)
  from assms have "nextId s \<le> j \<Longrightarrow> ready s j = None" for j
    by (simp add: wf_def)
  then show ?thesis unfolding Reject
    by (auto simp: budget_def)
next
  case (SetLocale x)
  then show ?thesis by (auto simp: budget_def setLocale_def split: option.splits)
next
  case (ClientActivity j c)
  then show ?thesis by (auto simp: budget_def)
next
  case Unmount
  then show ?thesis by (auto simp: budget_def cleanup_def split: option.splits)
qed

lemma rises_budget: "wf s \<Longrightarrow> rises V i es s \<le> budget s i"
proof (induction es arbitrary: s)
  case Nil
  then show ?case by simp
next
  case (Cons e es)
  have "rises V i es (step V e s) \<le> budget (step V e s) i"
    by (rule Cons.IH) (rule wf_step [OF Cons.prems])
  with step_budget [OF Cons.prems, of V e i] show ?case by simp
qed

lemma effect_not_ready: "isReady (effect V props s) = False"
  by (simp add: effect_def Let_def)

subsection \<open>Stale instances\<close>

lemma wf_allocated: "wf s \<Longrightarrow> verbaRef s = Some a \<Longrightarrow> a < nextId s"
  by (metis wf_def not_le_imp_less)

lemma after_commit:
  assumes "effectHook s = Some (deps, a)" "props \<noteq> deps"
  shows "step V (Commit props) s =
           (cleanup a s)\<lparr>isReady := False,
             heap := (heap s)(nextId s \<mapsto> verba_new V props),
             nextId := Suc (nextId s),
             verbaRef := Some (nextId s),
             ready := (ready s)(nextId s \<mapsto> Pending),
             effectHook := Some (props, nextId s)\<rparr>"
  using assms by (simp add: effect_def Let_def cleanup_fields)

text \<open>
  Claim C1. Let the provider be mounted with configuration A (instance \<open>a\<close>) and let the
  configuration change to B (instance \<open>b\<close>). If B's client finishes loading and its promise
  is fulfilled first, and A's promise is fulfilled afterwards, the final state is B's:
  \<open>verbaRef\<close> holds \<open>b\<close>, \<open>isReady\<close> is true and \<open>currentLocale\<close> is the locale of B's
  client. In every state, the fulfilment of an instance that is not the one in \<open>verbaRef\<close>
  changes neither \<open>isReady\<close> nor \<open>currentLocale\<close>.
\<close>

theorem stale_resolution_never_overwrites:
  assumes "s = run V es (mount V props)" and "effectHook s = Some (cfgA, a)" and "cfgB \<noteq> cfgA"
  shows "(let b = nextId s;
              s1 = step V (Commit cfgB) s;
              s2 = step V (ClientActivity b cB) s1;
              s3 = step V (Resolve b) s2;
              s4 = step V (ClientActivity a cA) s3;
              s5 = step V (Resolve a) s4
          in a \<noteq> b \<and> verbaRef s5 = Some b \<and> isReady s5 \<and> currentLocale s5 = verba_getLocale V cB) \<and>
         (verbaRef s' \<noteq> Some i \<longrightarrow>
            isReady (step V (Resolve i) s') = isReady s' \<and>
            currentLocale (step V (Resolve i) s') = currentLocale s')"
proof -
  have w: "wf s" using assms(1) by (simp add: wf_reachable)
  from w assms(2) have "verbaRef s = Some a" by (simp add: wf_def)
  with w have ab: "a \<noteq> nextId s" using wf_allocated by blast
  define s1 where "s1 = step V (Commit cfgB) s"
  define s2 where "s2 = step V (ClientActivity (nextId s) cB) s1"
  define s3 where "s3 = step V (Resolve (nextId s)) s2"
  define s4 where "s4 = step V (ClientActivity a cA) s3"
  have s1: "verbaRef s1 = Some (nextId s)" "ready s1 (nextId s) = Some Pending"
    "heap s1 (nextId s) \<noteq> None"
    by (simp_all add: s1_def after_commit [OF assms(2,3)] cleanup_fields del: step.simps)
  then have s2: "verbaRef s2 = Some (nextId s)" "ready s2 (nextId s) = Some Pending"
    "heap s2 (nextId s) = Some cB"
    unfolding s2_def by auto
  then have s3: "verbaRef s3 = Some (nextId s)" "isReady s3" "currentLocale s3 = verba_getLocale V cB"
    unfolding s3_def by (simp_all add: ready_callback_def)
  then have s4: "verbaRef s4 = Some (nextId s)" "isReady s4" "currentLocale s4 = verba_getLocale V cB"
    unfolding s4_def by auto
  from ab s4(1) have "verbaRef s4 \<noteq> Some a" by simp
  from stale_resolve [OF this, of V] s4
  have "verbaRef (step V (Resolve a) s4) = Some (nextId s)" "isReady (step V (Resolve a) s4)"
    "currentLocale (step V (Resolve a) s4) = verba_getLocale V cB"
    by simp_all
  with ab have "(let b = nextId s;
              s1 = step V (Commit cfgB) s;
              s2 = step V (ClientActivity b cB) s1;
              s3 = step V (Resolve b) s2;
              s4 = step V (ClientActivity a cA) s3;
              s5 = step V (Resolve a) s4
          in a \<noteq> b \<and> verbaRef s5 = Some b \<and> isReady s5 \<and> currentLocale s5 = verba_getLocale V cB)"
    unfolding Let_def s4_def s3_def s2_def s1_def by simp
  then show ?thesis using stale_resolve [of s' i V] by blast
qed

theorem stale_resolution_never_overwrites_witness:
  "mount sample_Verba props_A = run sample_Verba [] (mount sample_Verba props_A) \<and>
   effectHook (mount sample_Verba props_A) = Some (props_A, 0) \<and> props_B \<noteq> props_A \<and>
   currentLocale (run sample_Verba
      [Commit props_B, ClientActivity 1 client_fr, Resolve 1, ClientActivity 0 client_de, Resolve 0]
      (mount sample_Verba props_A)) = ''fr-CA'' \<and>
   verbaRef (step sample_Verba (Commit props_B) (mount sample_Verba props_A)) \<noteq> Some 0 \<and>
   \<not> isReady (step sample_Verba (Resolve 0) (step sample_Verba (Commit props_B) (mount sample_Verba props_A)))"
  using stale_resolution_never_overwrites [of "mount sample_Verba props_A" sample_Verba "[]" props_A
      props_A 0 props_B client_fr client_de
      "step sample_Verba (Commit props_B) (mount sample_Verba props_A)" 0]
  by (simp add: eval_defs)

subsection \<open>Teardown\<close>

lemma torn_down_step:
  assumes "verbaRef s = None" "effectHook s = None"
  shows "verbaRef (step V e s) = None \<and> effectHook (step V e s) = None \<and>
         isReady (step V e s) = isReady s \<and> currentLocale (step V e s) = currentLocale s"
  using assms by (cases e) (simp_all add: ready_callback_def setLocale_def)

lemma torn_down_run:
  "verbaRef s = None \<Longrightarrow> effectHook s = None \<Longrightarrow>
     verbaRef (run V es s) = None \<and> isReady (run V es s) = isReady s \<and>
     currentLocale (run V es s) = currentLocale s"
proof (induction es arbitrary: s)
  case Nil
  then show ?case by simp
next
  case (Cons e es)
  from torn_down_step [OF Cons.prems, of V e] Cons.IH [of "step V e s"]
  show ?case by simp
qed

lemma unmount_tears_down:
  assumes "wf s"
  shows "verbaRef (step V Unmount s) = None \<and> effectHook (step V Unmount s) = None \<and>
         isReady (step V Unmount s) = isReady s \<and> currentLocale (step V Unmount s) = currentLocale s"
  using assms by (auto simp: wf_def cleanup_def split: option.splits)

text \<open>
  Claim C4. After the provider has been unmounted, nothing that can still happen (a pending
  readiness promise is fulfilled or rejected, the client changes, a consumer still calls
  \<open>setLocale\<close>) changes \<open>isReady\<close> or \<open>currentLocale\<close>, and \<open>verbaRef\<close> stays null. Every
  step is a total function on the state: the continuation has no failing branch.
\<close>

theorem no_state_update_after_unmount:
  assumes "s = run V es (mount V props)"
  shows "isReady (run V es' (step V Unmount s)) = isReady s \<and>
         currentLocale (run V es' (step V Unmount s)) = currentLocale s \<and>
         verbaRef (run V es' (step V Unmount s)) = None"
proof -
  have "wf s" using assms by (simp add: wf_reachable)
  from unmount_tears_down [OF this, of V] torn_down_run [of "step V Unmount s" V es']
  show ?thesis by simp
qed

theorem no_state_update_after_unmount_witness:
  "mount sample_Verba props_B = run sample_Verba [] (mount sample_Verba props_B) \<and>
   ready (mount sample_Verba props_B) 0 = Some Pending \<and>
   \<not> isReady (run sample_Verba [ClientActivity 0 client_de, Resolve 0]
                 (step sample_Verba Unmount (mount sample_Verba props_B))) \<and>
   currentLocale (run sample_Verba [ClientActivity 0 client_de, Resolve 0]
                 (step sample_Verba Unmount (mount sample_Verba props_B))) = ''fr''"
  using no_state_update_after_unmount [of "mount sample_Verba props_B" sample_Verba "[]" props_B
      "[ClientActivity 0 client_de, Resolve 0]"]
  by (simp add: eval_defs)

subsection \<open>Readiness rises once, and never for a stale instance\<close>

lemma superseded_step:
  assumes "j < nextId s" "verbaRef s \<noteq> Some j"
  shows "j < nextId (step V e s) \<and> verbaRef (step V e s) \<noteq> Some j"
  using assms
  by (cases e)
     (auto simp: ready_callback_def setLocale_def effect_def Let_def cleanup_def
           split: option.splits)

lemma superseded_rises: "j < nextId s \<Longrightarrow> verbaRef s \<noteq> Some j \<Longrightarrow> rises V j es s = 0"
proof (induction es arbitrary: s)
  case Nil
  then show ?case by simp
next
  case (Cons e es)
  from superseded_step [OF Cons.prems, of V e] Cons.IH [of "step V e s"]
  show ?case by simp
qed

lemma torn_down_rises:
  "verbaRef s = None \<Longrightarrow> effectHook s = None \<Longrightarrow> rises V i es s = 0"
proof (induction es arbitrary: s)
  case Nil
  then show ?case by simp
next
  case (Cons e es)
  from torn_down_step [OF Cons.prems, of V e] Cons.IH [of "step V e s"]
  show ?case by simp
qed

lemma unmount_rises: "wf s \<Longrightarrow> rises V i es (step V Unmount s) = 0"
  using unmount_tears_down [of s V] by (simp add: torn_down_rises del: step.simps)

lemma commit_supersedes:
  assumes "wf s" "effectHook s = Some (deps, a)" "deps \<noteq> props'"
  shows "a < nextId (step V (Commit props') s) \<and> verbaRef (step V (Commit props') s) \<noteq> Some a"
proof -
  from assms(1,2) have "verbaRef s = Some a" by (simp add: wf_def)
  with assms(1) have "a < nextId s" by (rule wf_allocated)
  then show ?thesis
    using assms(2,3) by (simp add: after_commit [of s deps a props' V] cleanup_fields del: step.simps)
qed

text \<open>
  Claim C3. For every instance (one per configuration identity) \<open>isReady\<close> goes from false
  to true at most once in any run from mount, and a step that raises it is the fulfilment
  of the pending promise of the instance in \<open>verbaRef\<close>. Unmounting takes the instance out
  of \<open>verbaRef\<close>, and from then on \<open>isReady\<close> never rises and never changes. A change of
  configuration takes the old instance out of \<open>verbaRef\<close>, and \<open>isReady\<close> never rises for
  it again; the same holds for every instance that has been created and is not the one in
  \<open>verbaRef\<close>. Every run of the effect (at mount and at each change of the dependencies)
  leaves \<open>isReady\<close> false.
\<close>

theorem isReady_rises_at_most_once:
  "rises V i es (mount V props) \<le> 1 \<and>
   (\<not> isReady s \<and> isReady (step V e s) \<longrightarrow>
      (\<exists>j. e = Resolve j \<and> verbaRef s = Some j \<and> ready s j = Some Pending)) \<and>
   (verbaRef s \<noteq> Some i \<longrightarrow> isReady (step V (Resolve i) s) = isReady s) \<and>
   (effectHook s = Some (deps, a) \<and> deps \<noteq> props' \<longrightarrow> \<not> isReady (step V (Commit props') s)) \<and>
   \<not> isReady (mount V props) \<and>
   verbaRef (step V Unmount (run V es0 (mount V props))) = None \<and>
   rises V i es' (step V Unmount (run V es0 (mount V props))) = 0 \<and>
   isReady (run V es' (step V Unmount (run V es0 (mount V props)))) =
     isReady (run V es0 (mount V props)) \<and>
   (effectHook (run V es0 (mount V props)) = Some (cfgA, a') \<and> cfgA \<noteq> cfgB \<longrightarrow>
      verbaRef (step V (Commit cfgB) (run V es0 (mount V props))) \<noteq> Some a' \<and>
      rises V a' es' (step V (Commit cfgB) (run V es0 (mount V props))) = 0) \<and>
   (k < nextId r \<and> verbaRef r \<noteq> Some k \<longrightarrow> rises V k es' r = 0)"
proof -
  have "rises V i es (mount V props) \<le> budget (mount V props) i"
    by (rule rises_budget) (rule wf_mount)
  then have once: "rises V i es (mount V props) \<le> 1"
    by (simp add: budget_def split: if_splits)
  have w: "wf (run V es0 (mount V props))" by (rule wf_reachable)
  have un: "verbaRef (step V Unmount (run V es0 (mount V props))) = None"
    "rises V i es' (step V Unmount (run V es0 (mount V props))) = 0"
    "isReady (run V es' (step V Unmount (run V es0 (mount V props)))) =
       isReady (run V es0 (mount V props))"
    using unmount_tears_down [OF w, of V] unmount_rises [OF w, of V i es']
      torn_down_run [of "step V Unmount (run V es0 (mount V props))" V es']
    by simp_all
  have co: "effectHook (run V es0 (mount V props)) = Some (cfgA, a') \<and> cfgA \<noteq> cfgB \<longrightarrow>
      verbaRef (step V (Commit cfgB) (run V es0 (mount V props))) \<noteq> Some a' \<and>
      rises V a' es' (step V (Commit cfgB) (run V es0 (mount V props))) = 0"
    using commit_supersedes [OF w, of cfgA a' cfgB V] superseded_rises by blast
  have st: "k < nextId r \<and> verbaRef r \<noteq> Some k \<longrightarrow> rises V k es' r = 0"
    by (simp add: superseded_rises)
  have base: "(\<not> isReady s \<and> isReady (step V e s) \<longrightarrow>
      (\<exists>j. e = Resolve j \<and> verbaRef s = Some j \<and> ready s j = Some Pending)) \<and>
   (verbaRef s \<noteq> Some i \<longrightarrow> isReady (step V (Resolve i) s) = isReady s) \<and>
   (effectHook s = Some (deps, a) \<and> deps \<noteq> props' \<longrightarrow> \<not> isReady (step V (Commit props') s)) \<and>
   \<not> isReady (mount V props)"
    using rise_cause [of s V e] stale_resolve [of s i V]
    by (auto simp: effect_not_ready mount_def)
  from once un co st base show ?thesis by blast
qed

theorem isReady_rises_at_most_once_witness:
  "rises sample_Verba 1 [Resolve 0, Commit props_B, Resolve 0, Resolve 1] (mount sample_Verba props_A) \<le> 1 \<and>
   \<not> isReady (mount sample_Verba props_A) \<and>
   isReady (step sample_Verba (Resolve 0) (mount sample_Verba props_A)) \<and>
   verbaRef (mount sample_Verba props_A) \<noteq> Some 1 \<and>
   effectHook (mount sample_Verba props_A) = Some (props_A, 0) \<and> props_A \<noteq> props_B \<and>
   \<not> isReady (step sample_Verba (Commit props_B) (mount sample_Verba props_A)) \<and>
   ready (step sample_Verba Unmount (mount sample_Verba props_A)) 0 = Some Pending \<and>
   \<not> isReady (run sample_Verba [Resolve 0] (step sample_Verba Unmount (mount sample_Verba props_A))) \<and>
   ready (step sample_Verba (Commit props_B) (mount sample_Verba props_A)) 0 = Some Pending \<and>
   rises sample_Verba 0 [Resolve 0, Resolve 1]
     (step sample_Verba (Commit props_B) (mount sample_Verba props_A)) = 0 \<and>
   (0::nat) < nextId (step sample_Verba (Commit props_B) (mount sample_Verba props_A)) \<and>
   verbaRef (step sample_Verba (Commit props_B) (mount sample_Verba props_A)) \<noteq> Some 0"
  using isReady_rises_at_most_once [of sample_Verba 1 "[Resolve 0, Commit props_B, Resolve 0, Resolve 1]"
      props_A "mount sample_Verba props_A" "Resolve 0" props_A 0 props_B "[]" "[Resolve 0, Resolve 1]"
      props_A 0 props_B 0 "step sample_Verba (Commit props_B) (mount sample_Verba props_A)"]
  by (simp add: eval_defs)

subsection \<open>A readiness promise that rejects\<close>

lemma rejected_step:
  assumes "wf s" "ready s i = Some Rejected"
  shows "ready (step V e s) i = Some Rejected"
proof -
  from assms have "i < nextId s" by (metis wf_def not_le_imp_less option.distinct(1))
  with assms(2) show ?thesis
    by (cases e)
       (auto simp: ready_callback_def setLocale_def effect_def Let_def cleanup_def
             split: option.splits)
qed

lemma rejected_run: "wf s \<Longrightarrow> ready s i = Some Rejected \<Longrightarrow> ready (run V es s) i = Some Rejected"
  by (induction es arbitrary: s) (simp_all add: wf_step rejected_step)

text \<open>
  Claim C7. When the readiness promise of the current instance rejects, the provider's state
  does not change (only the promise is settled: there is no error field and none is set),
  \<open>isReady\<close> is false, and it is false in every later state in which that instance is
  still the one in \<open>verbaRef\<close>.
\<close>

theorem rejected_readiness_never_ready:
  assumes "s = run V es (mount V props)" and "verbaRef s = Some i" and "ready s i = Some Pending"
  shows "step V (Reject i) s = s\<lparr>ready := (ready s)(i \<mapsto> Rejected)\<rparr> \<and>
         \<not> isReady (step V (Reject i) s) \<and>
         (verbaRef (run V es' (step V (Reject i) s)) = Some i \<longrightarrow>
            \<not> isReady (run V es' (step V (Reject i) s)))"
proof -
  have w: "wf s" using assms(1) by (simp add: wf_reachable)
  have eq: "step V (Reject i) s = s\<lparr>ready := (ready s)(i \<mapsto> Rejected)\<rparr>"
    using assms(3) by simp
  from w assms(2,3) have nr: "\<not> isReady s" by (auto simp: wf_def)
  have w': "wf (step V (Reject i) s)" by (rule wf_step [OF w])
  have "ready (step V (Reject i) s) i = Some Rejected" using assms(3) by simp
  then have "ready (run V es' (step V (Reject i) s)) i = Some Rejected"
    by (rule rejected_run [OF w'])
  moreover have "wf (run V es' (step V (Reject i) s))" by (rule wf_run [OF w'])
  ultimately have "verbaRef (run V es' (step V (Reject i) s)) = Some i \<longrightarrow>
            \<not> isReady (run V es' (step V (Reject i) s))"
    by (auto simp: wf_def)
  with eq nr show ?thesis by simp
qed

theorem rejected_readiness_never_ready_witness:
  "mount sample_Verba props_A = run sample_Verba [] (mount sample_Verba props_A) \<and>
   verbaRef (mount sample_Verba props_A) = Some 0 \<and>
   ready (mount sample_Verba props_A) 0 = Some Pending \<and>
   verbaRef (run sample_Verba [SetLocale ''fr'', Resolve 0, Commit props_A]
               (step sample_Verba (Reject 0) (mount sample_Verba props_A))) = Some 0 \<and>
   \<not> isReady (run sample_Verba [SetLocale ''fr'', Resolve 0, Commit props_A]
               (step sample_Verba (Reject 0) (mount sample_Verba props_A)))"
  using rejected_readiness_never_ready [of "mount sample_Verba props_A" sample_Verba "[]" props_A 0
      "[SetLocale ''fr'', Resolve 0, Commit props_A]"]
  by (simp add: eval_defs)

subsection \<open>The translate function\<close>

text \<open>
  Claim C2 as stated fails between the first run of the effect and the fulfilment of the
  readiness promise: the instance is in \<open>verbaRef\<close>, \<open>isReady\<close> is false, and \<open>t\<close> hands
  the call to the client, which answers from what it has. Here the sample client returns
  its bundled translation, not the key.
\<close>

theorem t_before_readiness_counterexample:
  "verbaRef (mount sample_Verba props_A) = Some 0 \<and>
   \<not> isReady (mount sample_Verba props_A) \<and>
   t sample_Verba (mount sample_Verba props_A) ''greeting'' None None = ''Hallo'' \<and>
   t sample_Verba (mount sample_Verba props_A) ''greeting'' None None \<noteq> ''greeting''"
  by (simp add: t_def eval_defs)

text \<open>
  Claim C2, amended. While \<open>verbaRef\<close> is null (at the first render, before the effect has
  run, and after unmount) \<open>t\<close> returns the default value when the second argument is a
  string and the key otherwise. While \<open>verbaRef\<close> holds an instance, whether its readiness
  promise has been fulfilled or not, \<open>t\<close> returns what the instance's \<open>t\<close> returns for
  the same three arguments.
\<close>

theorem t_falls_back_without_instance:
  "(verbaRef s = None \<longrightarrow>
      t V s key d p = (case d of Some (DefaultValue v) \<Rightarrow> v | _ \<Rightarrow> key)) \<and>
   (verbaRef s' = Some i \<longrightarrow> t V s' key d p = verba_t V (the (heap s' i)) key d p) \<and>
   t V (init props) key d p = (case d of Some (DefaultValue v) \<Rightarrow> v | _ \<Rightarrow> key) \<and>
   t V (run V es' (step V Unmount (run V es (mount V props)))) key d p =
     (case d of Some (DefaultValue v) \<Rightarrow> v | _ \<Rightarrow> key)"
proof -
  have "wf (run V es (mount V props))" by (rule wf_reachable)
  from unmount_tears_down [OF this, of V]
    torn_down_run [of "step V Unmount (run V es (mount V props))" V es']
  have "verbaRef (run V es' (step V Unmount (run V es (mount V props)))) = None" by simp
  then show ?thesis by (simp add: t_def init_def)
qed

theorem t_falls_back_without_instance_witness:
  "verbaRef (init props_A :: sample_client provider) = None \<and>
   t sample_Verba (init props_A) ''greeting'' (Some (DefaultValue ''Hello'')) None = ''Hello'' \<and>
   t sample_Verba (init props_A) ''greeting'' (Some (Params ())) (Some ()) = ''greeting'' \<and>
   verbaRef (mount sample_Verba props_A) = Some 0 \<and>
   t sample_Verba (mount sample_Verba props_A) ''greeting'' (Some (DefaultValue ''Hello'')) None = ''Hallo''"
  using t_falls_back_without_instance [of "init props_A" sample_Verba "''greeting''"
      "Some (DefaultValue ''Hello'')" None "mount sample_Verba props_A" 0 props_A "[]" "[]"]
    t_falls_back_without_instance [of "init props_A" sample_Verba "''greeting''"
      "Some (Params ())" "Some ()" "mount sample_Verba props_A" 0 props_A "[]" "[]"]
  by (simp add: eval_defs)

subsection \<open>Changing the locale\<close>

text \<open>
  Claim C5. \<open>setLocale x\<close> leaves the state as it is while \<open>verbaRef\<close> is null. Otherwise
  it calls the instance's \<open>setLocale\<close> and stores \<open>x\<close> in \<open>currentLocale\<close> in the same
  call, so the published locale is \<open>x\<close> at once, and it is still \<open>x\<close> whatever state the
  client moves to afterwards.
\<close>

theorem setLocale_mirrors_locale:
  "(verbaRef s = None \<longrightarrow> setLocale V x s = s) \<and>
   (verbaRef s' = Some i \<longrightarrow>
      setLocale V x s' =
        s'\<lparr>heap := (heap s')(i \<mapsto> verba_setLocale V (the (heap s' i)) x), currentLocale := x\<rparr> \<and>
      v_locale (context_value V (setLocale V x s')) = x \<and>
      v_locale (context_value V (step V (ClientActivity j c) (setLocale V x s'))) = x)"
  by (simp add: setLocale_def context_value_def)

theorem setLocale_mirrors_locale_witness:
  "verbaRef (init props_A :: sample_client provider) = None \<and>
   setLocale sample_Verba ''fr'' (init props_A) = init props_A \<and>
   verbaRef (mount sample_Verba props_A) = Some 0 \<and>
   v_locale (context_value sample_Verba (setLocale sample_Verba ''fr'' (mount sample_Verba props_A))) = ''fr'' \<and>
   map_option sc_locale (heap (setLocale sample_Verba ''fr'' (mount sample_Verba props_A)) 0) = Some ''fr'' \<and>
   v_locale (context_value sample_Verba
      (step sample_Verba (ClientActivity 0 client_de)
         (setLocale sample_Verba ''fr'' (mount sample_Verba props_A)))) = ''fr''"
  using setLocale_mirrors_locale [of "init props_A" sample_Verba "''fr''" "mount sample_Verba props_A" 0
      0 client_de]
  by (simp add: eval_defs context_value_def)

subsection \<open>The accessor hook\<close>

text \<open>
  Claim C6. \<open>useVerba\<close> throws its usage error with no enclosing provider, returns the value
  of the nearest enclosing provider otherwise, and throws exactly when the context slot
  holds its null default.
\<close>

theorem useVerba_throws_outside_provider:
  "useVerba [] = Inl (Error ''useVerba must be used within a <VerbaProvider>'') \<and>
   useVerba (Some v # ps) = Inr v \<and>
   ((\<exists>e. useVerba ps' = Inl e) \<longleftrightarrow> useContext VerbaContext ps' = None) \<and>
   ((\<exists>e. useVerba (map Some vs) = Inl e) \<longleftrightarrow> vs = [])"
  by (auto simp: useVerba_def useContext_def VerbaContext_def split: list.splits option.splits)

subsection \<open>A change of configuration\<close>

text \<open>
  Claim C8. When the configuration of a mounted provider changes, the cleanup of the
  previous run empties \<open>verbaRef\<close> and the effect then sets \<open>isReady\<close> to false, creates
  a new client from the new configuration under a fresh identity, stores that identity in
  \<open>verbaRef\<close> (the old object is left as it was), and registers the continuation on a
  promise that is still pending when the effect returns. \<open>verbaRef\<close> is one cell, so one
  instance is live. On teardown the reference is emptied, and the fulfilment of the
  promise afterwards updates nothing. Mounting is the same effect on the initial state.
\<close>

theorem effect_replaces_instance:
  assumes "s = run V es (mount V props)" and "effectHook s = Some (deps, a)" and "props' \<noteq> deps"
  shows "(let b = nextId s; s' = step V (Commit props') s
          in verbaRef s = Some a \<and> a \<noteq> b \<and>
             verbaRef (cleanup a s) = None \<and>
             s' = effect V props' (cleanup a s) \<and>
             s' = s\<lparr>isReady := False,
                     heap := (heap s)(b \<mapsto> verba_new V props'),
                     nextId := Suc b,
                     verbaRef := Some b,
                     ready := (ready s)(b \<mapsto> Pending),
                     effectHook := Some (props', b)\<rparr> \<and>
             heap s' a = heap s a \<and>
             verbaRef (step V Unmount s') = None \<and>
             isReady (step V (Resolve b) (step V Unmount s')) = False \<and>
             currentLocale (step V (Resolve b) (step V Unmount s')) = currentLocale s) \<and>
         mount V props =
           (init props)\<lparr>heap := [0 \<mapsto> verba_new V props], nextId := Suc 0, verbaRef := Some 0,
                         ready := [0 \<mapsto> Pending], effectHook := Some (props, 0)\<rparr>"
proof -
  have w: "wf s" using assms(1) by (simp add: wf_reachable)
  from w assms(2) have ref: "verbaRef s = Some a" by (simp add: wf_def)
  with w have ab: "a \<noteq> nextId s" using wf_allocated by blast
  define s' where "s' = step V (Commit props') s"
  have eff: "s' = effect V props' (cleanup a s)"
    unfolding s'_def using assms(2,3) by simp
  have eq: "s' = s\<lparr>isReady := False,
                     heap := (heap s)(nextId s \<mapsto> verba_new V props'),
                     nextId := Suc (nextId s),
                     verbaRef := Some (nextId s),
                     ready := (ready s)(nextId s \<mapsto> Pending),
                     effectHook := Some (props', nextId s)\<rparr>"
    unfolding eff using ref by (simp add: effect_def Let_def cleanup_def)
  have old: "heap s' a = heap s a" using ab by (simp add: eq)
  define u where "u = step V Unmount s'"
  have un: "u = s'\<lparr>verbaRef := None, effectHook := None\<rparr>"
    unfolding u_def by (simp add: eq cleanup_def)
  have un_ref: "verbaRef u = None" by (simp add: un)
  then have "verbaRef u \<noteq> Some (nextId s)" by simp
  from stale_resolve [OF this, of V]
  have late: "isReady (step V (Resolve (nextId s)) u) = False"
    "currentLocale (step V (Resolve (nextId s)) u) = currentLocale s"
    by (simp_all add: un eq del: step.simps)
  have m: "mount V props =
           (init props)\<lparr>heap := [0 \<mapsto> verba_new V props], nextId := Suc 0, verbaRef := Some 0,
                         ready := [0 \<mapsto> Pending], effectHook := Some (props, 0)\<rparr>"
    by (simp add: mount_def effect_def Let_def init_def)
  from ref have "verbaRef (cleanup a s) = None" by (simp add: cleanup_def)
  with ref ab eff eq old un_ref late m show ?thesis
    unfolding Let_def u_def s'_def by blast
qed

theorem effect_replaces_instance_witness:
  "mount sample_Verba props_A = run sample_Verba [] (mount sample_Verba props_A) \<and>
   effectHook (mount sample_Verba props_A) = Some (props_A, 0) \<and> props_B \<noteq> props_A \<and>
   verbaRef (step sample_Verba (Commit props_B) (mount sample_Verba props_A)) = Some 1 \<and>
   map_option sc_locale (heap (step sample_Verba (Commit props_B) (mount sample_Verba props_A)) 1) = Some ''fr'' \<and>
   map_option sc_locale (heap (step sample_Verba (Commit props_B) (mount sample_Verba props_A)) 0) = Some ''de'' \<and>
   ready (step sample_Verba (Commit props_B) (mount sample_Verba props_A)) 1 = Some Pending \<and>
   \<not> isReady (run sample_Verba [Commit props_B, Unmount, Resolve 1] (mount sample_Verba props_A))"
  using effect_replaces_instance [of "mount sample_Verba props_A" sample_Verba "[]" props_A props_A 0 props_B]
  by (simp add: eval_defs)

subsection \<open>The published value\<close>

lemma no_resolution_locale: "no_resolution e \<Longrightarrow> currentLocale (step V e s) = currentLocale s"
  by (cases e) simp_all

lemma no_resolution_run:
  "list_all no_resolution es \<Longrightarrow> currentLocale (run V es s) = currentLocale s"
  by (induction es arbitrary: s) (simp_all add: no_resolution_locale)

text \<open>
  Claim C9. At the first render, after the first run of the effect, and as long as nothing
  happens but client activity and rejections, the published locale is the \<open>locale\<close> prop
  when it is given and the string \<open>en\<close> otherwise, whatever the client is.
\<close>

theorem locale_on_mount:
  "v_locale (context_value V (init props)) = (case locale_prop props of Some l \<Rightarrow> l | None \<Rightarrow> ''en'') \<and>
   v_locale (context_value V (mount V props)) = (case locale_prop props of Some l \<Rightarrow> l | None \<Rightarrow> ''en'') \<and>
   (list_all no_resolution es \<longrightarrow>
      v_locale (context_value V (run V es (mount V props))) =
        (case locale_prop props of Some l \<Rightarrow> l | None \<Rightarrow> ''en''))"
proof -
  have "currentLocale (mount V props) = (case locale_prop props of Some l \<Rightarrow> l | None \<Rightarrow> ''en'')"
    by (simp add: mount_def effect_def Let_def init_def)
  then show ?thesis
    by (simp add: context_value_def no_resolution_run) (simp add: init_def)
qed

theorem locale_on_mount_witness:
  "list_all no_resolution [ClientActivity 0 client_de, Reject 0] \<and>
   v_locale (context_value sample_Verba (init props_A)) = ''en'' \<and>
   v_locale (context_value sample_Verba (init props_B)) = ''fr'' \<and>
   v_locale (context_value sample_Verba
      (run sample_Verba [ClientActivity 0 client_de, Reject 0] (mount sample_Verba props_A))) = ''en''"
  using locale_on_mount [of sample_Verba props_A "[ClientActivity 0 client_de, Reject 0]"]
    locale_on_mount [of sample_Verba props_B "[]"]
  by (simp add: props_A_def props_B_def)

subsection \<open>The memoised value\<close>

lemma hooks_render: "hooks (render V c) = hooks c"
  by (simp add: render_def Let_def)

lemma hooks_react: "hooks (react V e c) = step V e (hooks c)"
  by (simp add: react_def Let_def hooks_render del: step.simps)

lemma hooks_run_component: "hooks (run_component V es c) = run V es (hooks c)"
  by (induction es arbitrary: c) (simp_all add: hooks_react del: step.simps)

lemma hooks_mount_component: "hooks (mount_component V props) = mount V props"
  by (simp add: mount_component_def hooks_render)

lemma published_mount_component:
  "published (mount_component V props) = published (first_render V props)"
  by (simp add: mount_component_def render_def first_render_def published_def Let_def
        mount_def effect_def init_def)

lemma react_unmounted:
  "effectHook (step V e (hooks c)) = None \<Longrightarrow> value_memo (react V e c) = value_memo c"
  by (simp add: react_def Let_def del: step.simps)

lemma torn_down_component:
  "verbaRef (hooks c) = None \<Longrightarrow> effectHook (hooks c) = None \<Longrightarrow>
     value_memo (run_component V es c) = value_memo c"
proof (induction es arbitrary: c)
  case Nil
  then show ?case by simp
next
  case (Cons e es)
  from torn_down_step [OF Cons.prems, of V e]
  have td: "verbaRef (hooks (react V e c)) = None" "effectHook (hooks (react V e c)) = None"
    by (simp_all add: hooks_react del: step.simps)
  then have "value_memo (react V e c) = value_memo c"
    by (simp add: hooks_react react_unmounted del: step.simps)
  with Cons.IH [OF td] show ?case by simp
qed

lemma no_resolution_state:
  "no_resolution e \<Longrightarrow>
     currentLocale (step V e s) = currentLocale s \<and> isReady (step V e s) = isReady s"
  by (cases e) simp_all

lemma no_resolution_memo:
  "list_all no_resolution es \<Longrightarrow>
     fst (value_memo c) = (currentLocale (hooks c), isReady (hooks c)) \<Longrightarrow>
     value_memo (run_component V es c) = value_memo c"
proof (induction es arbitrary: c)
  case Nil
  then show ?case by simp
next
  case (Cons e es)
  from Cons.prems have e: "no_resolution e" and es: "list_all no_resolution es" by simp_all
  from no_resolution_state [OF e, of V "hooks c"] Cons.prems(2)
  have keep: "value_memo (react V e c) = value_memo c"
    by (simp add: react_def render_def Let_def del: step.simps)
  with no_resolution_state [OF e, of V "hooks c"] Cons.prems(2)
  have "fst (value_memo (react V e c)) =
          (currentLocale (hooks (react V e c)), isReady (hooks (react V e c)))"
    by (simp add: hooks_react del: step.simps)
  from Cons.IH [OF es this] keep show ?case by simp
qed

lemma published_until_state_changes:
  "list_all no_resolution es \<Longrightarrow>
     published (run_component V es (mount_component V props)) = published (first_render V props)"
proof -
  assume es: "list_all no_resolution es"
  have "fst (value_memo (mount_component V props)) =
          (currentLocale (hooks (mount_component V props)), isReady (hooks (mount_component V props)))"
    by (simp add: mount_component_def render_def first_render_def Let_def
          mount_def effect_def init_def)
  from no_resolution_memo [OF es this, of V] show ?thesis
    by (simp add: published_def published_mount_component [unfolded published_def])
qed

text \<open>
  The locale and the readiness flag of the published value are part of the memo's key, so
  while the component is mounted they are those of the state.
\<close>

lemma published_tracks_state:
  "fst (value_memo c) = (v_locale (published c), v_isReady (published c)) \<and>
   (effectHook (hooks c) \<noteq> None \<longrightarrow>
      v_locale (published c) = currentLocale (hooks c) \<and> v_isReady (published c) = isReady (hooks c))"
  if "c = run_component V es (mount_component V props)"
  unfolding that
proof (induction es rule: rev_induct)
  case Nil
  show ?case
    by (simp add: mount_component_def render_def first_render_def Let_def published_def
          context_value_def mount_def effect_def init_def)
next
  case (snoc e es)
  have app: "run_component V (es @ [e]) c0 = react V e (run_component V es c0)" for c0
    by (induction es arbitrary: c0) simp_all
  from snoc show ?case
    unfolding app
    by (simp add: react_def render_def Let_def published_def context_value_def del: step.simps)
qed

text \<open>
  Claim C10 as stated fails after teardown. Once the readiness promise has been fulfilled
  the component has rendered with the instance in \<open>verbaRef\<close>, and the value it published
  holds the client's locales and default locale. Unmounting empties \<open>verbaRef\<close> but renders
  nothing, so no live instance exists and the published value still holds them.
\<close>

theorem published_locales_after_unmount_counterexample:
  "verbaRef (hooks (run_component sample_Verba [Resolve 0, Unmount] (mount_component sample_Verba props_A))) = None \<and>
   v_locales (published (run_component sample_Verba [Resolve 0, Unmount] (mount_component sample_Verba props_A)))
     = [''de'', ''fr''] \<and>
   v_locales (published (run_component sample_Verba [Resolve 0, Unmount] (mount_component sample_Verba props_A)))
     \<noteq> [] \<and>
   v_defaultLocale (published (run_component sample_Verba [Resolve 0, Unmount] (mount_component sample_Verba props_A)))
     = Some ''de''"
  by (simp add: eval_defs mount_component_def first_render_def render_def react_def published_def
        context_value_def)

text \<open>
  Claim C10, amended. At the first render, before the effect has run, \<open>verbaRef\<close> is null
  and the published value has the empty list of locales and no default locale; the factory
  returns these whenever it runs while \<open>verbaRef\<close> is null. Unmounting empties \<open>verbaRef\<close>
  for good and leaves the published value as it was: it keeps the locales and the default
  locale published last.
\<close>

theorem published_locales_without_instance:
  "verbaRef (hooks (first_render V props)) = None \<and>
   v_locales (published (first_render V props)) = [] \<and>
   v_defaultLocale (published (first_render V props)) = None \<and>
   (verbaRef s = None \<longrightarrow>
      v_locales (context_value V s) = [] \<and> v_defaultLocale (context_value V s) = None) \<and>
   verbaRef (hooks (run_component V es' (react V Unmount (run_component V es (mount_component V props))))) = None \<and>
   published (run_component V es' (react V Unmount (run_component V es (mount_component V props)))) =
     published (run_component V es (mount_component V props))"
proof -
  define c where "c = run_component V es (mount_component V props)"
  have h: "hooks c = run V es (mount V props)"
    by (simp add: c_def hooks_run_component hooks_mount_component)
  then have "wf (hooks c)" by (simp add: wf_reachable)
  from unmount_tears_down [OF this, of V]
  have td: "verbaRef (hooks (react V Unmount c)) = None" "effectHook (hooks (react V Unmount c)) = None"
    by (simp_all add: hooks_react del: step.simps)
  then have "value_memo (react V Unmount c) = value_memo c"
    by (simp add: hooks_react react_unmounted del: step.simps)
  with torn_down_component [OF td, of V es']
  have keep: "published (run_component V es' (react V Unmount c)) = published c"
    by (simp add: published_def)
  from td torn_down_run [of "hooks (react V Unmount c)" V es']
  have "verbaRef (hooks (run_component V es' (react V Unmount c))) = None"
    by (simp add: hooks_run_component)
  with keep show ?thesis
    unfolding c_def by (simp add: first_render_def published_def context_value_def init_def Let_def)
qed

theorem published_locales_without_instance_witness:
  "verbaRef (init props_A :: sample_client provider) = None \<and>
   v_locales (context_value sample_Verba (init props_A)) = [] \<and>
   v_defaultLocale (context_value sample_Verba (init props_A)) = None \<and>
   v_locales (published (first_render sample_Verba props_A)) = [] \<and>
   v_locales (published (run_component sample_Verba [Resolve 0]
      (react sample_Verba Unmount (run_component sample_Verba [] (mount_component sample_Verba props_A))))) = [] \<and>
   v_locales (published (run_component sample_Verba [Resolve 1]
      (react sample_Verba Unmount (run_component sample_Verba [Resolve 0] (mount_component sample_Verba props_A)))))
     = [''de'', ''fr'']"
  using published_locales_without_instance [of sample_Verba props_A "init props_A" "[Resolve 0]" "[]"]
    published_locales_without_instance [of sample_Verba props_A "init props_A" "[Resolve 1]" "[Resolve 0]"]
  by (simp add: eval_defs mount_component_def first_render_def render_def react_def published_def
        context_value_def)

end
